theory Spec2Isabelle
  imports Main "HOL-Library.Multiset" "HOL-Library.Product_Lexorder"
    "HOL-Library.Code_Target_Nat"
begin

section \<open>Tidy Inbox: header decoding, grouping, ranking and query generation\<close>

text \<open>
  A shallow embedding of \<^verbatim>\<open>src/tidy_inbox.py\<close>. Python \<^verbatim>\<open>str\<close> and \<^verbatim>\<open>bytes\<close> values are
  modelled as \<^typ>\<open>string\<close> (a list of 8-bit characters, read as the UTF-8 bytes of the text).
  Exceptions are values of the type \<open>error\<close>; a function that can raise returns
  \<open>error + 'a\<close> with \<open>Inl\<close> for the exception. The console is modelled by the list of the
  warnings printed, and a print that interpolates a text can raise; progress bars and the
  prints of fixed texts and numbers are left out.
\<close>

subsection \<open>Exceptions, warnings and the library functions the program calls\<close>

datatype error =
    LookupError | UnicodeDecodeError | HeaderParseError | TypeError
  | AttributeError | ParserError | OverflowError | MarkupError

text \<open>
  The two warnings of \<^verbatim>\<open>group_emails\<close>: "Could not extract email address from sender:
  <sender>" and "Could not parse date '<date_str>' for sender <sender_email>: <e>"; and the
  one of \<^verbatim>\<open>sort_groups\<close>: "Invalid sort criteria '<criteria>'. Defaulting to count."
\<close>

datatype warning =
    NoSenderEmail string
  | DateParseFailed string string error
  | InvalidCriteria string

text \<open>
  \<^verbatim>\<open>email.header.decode_header\<close> returns a list of pairs (payload, charset); the payload is a
  \<^verbatim>\<open>str\<close> when the header holds no encoded word and \<^verbatim>\<open>bytes\<close> otherwise.
\<close>

datatype pystr = Str string | Bytes string

text \<open>
  The functions of the Python standard library and of \<^verbatim>\<open>dateutil\<close> that the program calls
  and whose code is not part of the repository are parameters of the model:
  \<^item> \<open>decode_header\<close> is \<^verbatim>\<open>email.header.decode_header\<close>;
  \<^item> \<open>bytes_decode b cs\<close> is \<^verbatim>\<open>b.decode(cs)\<close> on a \<^verbatim>\<open>bytes\<close> value;
  \<^item> \<open>parseaddr\<close> is \<^verbatim>\<open>email.utils.parseaddr\<close>;
  \<^item> \<open>parse_utc s\<close> is \<^verbatim>\<open>date_parser.parse(s).astimezone(timezone.utc)\<close>, with the resulting
    instant counted in microseconds since \<^verbatim>\<open>datetime.min.replace(tzinfo=timezone.utc)\<close>;
  \<^item> \<open>parse_error_text s\<close> is \<^verbatim>\<open>str(e)\<close> of the exception \<open>e\<close> that \<open>parse_utc s\<close> raises;
  \<^item> \<open>print_markup text\<close> is \<^verbatim>\<open>console.print(text)\<close> of \<^verbatim>\<open>rich\<close>, which reads \<open>text\<close> as console
    markup: \<open>None\<close> when the text is printed, the exception when the rendering raises one
    (\<^verbatim>\<open>MarkupError\<close> for a closing tag that matches no open tag).
\<close>

record lib =
  decode_header :: "string \<Rightarrow> error + (pystr \<times> string option) list"
  bytes_decode :: "string \<Rightarrow> string \<Rightarrow> error + string"
  parseaddr :: "string \<Rightarrow> string \<times> string"
  parse_utc :: "string \<Rightarrow> error + nat"
  parse_error_text :: "string \<Rightarrow> string"
  print_markup :: "string \<Rightarrow> error option"

definition datetime_min_utc :: nat where
  "datetime_min_utc = 0"

subsection \<open>The console\<close>

text \<open>
  Every \<^verbatim>\<open>console.print\<close> of the program prints an f-string whose fixed part is well-formed
  markup. A tag of the markup begins with an opening bracket, so when none of the
  interpolated values \<open>vals\<close> holds one the text has the tags of the fixed part only and is
  printed; otherwise the values are read as markup too and the library decides. The prints
  that interpolate no text (fixed texts and numbers) are left out of the model.
\<close>

definition console_print :: "lib \<Rightarrow> string list \<Rightarrow> string \<Rightarrow> error option" where
  "console_print L vals text =
     (if \<forall>v \<in> set vals. CHR ''['' \<notin> set v then None else print_markup L text)"

text \<open>The f-strings of lines 192, 211, 227 and 235.\<close>

definition no_sender_text :: "string \<Rightarrow> string" where
  "no_sender_text sender_text =
     ''[yellow]Warning: Could not extract email address from sender: '' @ sender_text @
     ''[/yellow]''"

definition date_warning_text :: "string \<Rightarrow> string \<Rightarrow> string \<Rightarrow> string" where
  "date_warning_text d k e_text =
     ''[yellow]Warning: Could not parse date '' @ [CHR 0x27] @ d @ [CHR 0x27] @
     '' for sender '' @ k @ '': '' @ e_text @ ''[/yellow]''"

definition sorting_text :: "string \<Rightarrow> string" where
  "sorting_text criteria = ''Sorting groups by '' @ criteria @ ''...''"

definition invalid_criteria_text :: "string \<Rightarrow> string" where
  "invalid_criteria_text criteria =
     ''[yellow]Warning:[/yellow] Invalid sort criteria '' @ [CHR 0x27] @ criteria @ [CHR 0x27] @
     ''. Defaulting to count.''"

subsection \<open>String helpers\<close>

text \<open>
  \<^verbatim>\<open>str.lower\<close> on the bytes of the text: the letters A to Z are mapped to a to z. The program
  compares the result only with the four ASCII names \<^verbatim>\<open>from\<close>, \<^verbatim>\<open>subject\<close>, \<^verbatim>\<open>date\<close> and
  \<^verbatim>\<open>list-unsubscribe\<close>, none of which is the lower case of a text with a letter outside ASCII.
\<close>

definition lower_char :: "char \<Rightarrow> char" where
  "lower_char c =
     (let n = (of_char c :: nat) in if 65 \<le> n \<and> n \<le> 90 then char_of (n + 32) else c)"

definition lower :: "string \<Rightarrow> string" where
  "lower s = map lower_char s"

fun join_space :: "string list \<Rightarrow> string" where
  "join_space [] = []"
| "join_space [s] = s"
| "join_space (s # t # ts) = s @ '' '' @ join_space (t # ts)"

subsection \<open>\<^verbatim>\<open>decode_email_header\<close>\<close>

text \<open>
  The loop over the parts: a part with a charset is decoded with \<^verbatim>\<open>part[0].decode(part[1])\<close>
  (a \<^verbatim>\<open>str\<close> payload has no such method), a part without one is appended as it is.
\<close>

fun decode_parts :: "lib \<Rightarrow> (pystr \<times> string option) list \<Rightarrow> error + pystr list" where
  "decode_parts L [] = Inr []"
| "decode_parts L ((p, Some cs) # parts) =
     (case p of
        Str s \<Rightarrow> Inl AttributeError
      | Bytes b \<Rightarrow>
          (case bytes_decode L b cs of
             Inl e \<Rightarrow> Inl e
           | Inr s \<Rightarrow> (case decode_parts L parts of Inl e \<Rightarrow> Inl e | Inr ds \<Rightarrow> Inr (Str s # ds))))"
| "decode_parts L ((p, None) # parts) =
     (case decode_parts L parts of Inl e \<Rightarrow> Inl e | Inr ds \<Rightarrow> Inr (p # ds))"

text \<open>\<^verbatim>\<open>' '.join(decoded_parts)\<close> raises \<^verbatim>\<open>TypeError\<close> when an item is not a \<^verbatim>\<open>str\<close>.\<close>

fun str_items :: "pystr list \<Rightarrow> error + string list" where
  "str_items [] = Inr []"
| "str_items (Str s # ps) = (case str_items ps of Inl e \<Rightarrow> Inl e | Inr ss \<Rightarrow> Inr (s # ss))"
| "str_items (Bytes b # ps) = Inl TypeError"

definition decode_email_header :: "lib \<Rightarrow> string \<Rightarrow> error + string" where
  "decode_email_header L header =
     (case decode_header L header of
        Inl e \<Rightarrow> Inl e
      | Inr decoded_header \<Rightarrow>
          (case decode_parts L decoded_header of
             Inl e \<Rightarrow> Inl e
           | Inr decoded_parts \<Rightarrow>
               (case str_items decoded_parts of
                  Inl e \<Rightarrow> Inl e
                | Inr ss \<Rightarrow> Inr (join_space ss))))"

subsection \<open>Messages and groups\<close>

text \<open>
  A message is the dictionary the fetch returns: \<^verbatim>\<open>msg.get('id')\<close>, and
  \<^verbatim>\<open>msg.get('payload', {}).get('headers', [])\<close>, where both the payload and its header list may
  be absent.
\<close>

datatype header = Header (hname: string) (hvalue: string)

datatype payload = Payload (headers: "header list option")

datatype message = Message (msg_id: "string option") (msg_payload: "payload option")

definition headers_of :: "message \<Rightarrow> header list" where
  "headers_of msg =
     (case msg_payload msg of
        None \<Rightarrow> []
      | Some p \<Rightarrow> (case headers p of None \<Rightarrow> [] | Some hs \<Rightarrow> hs))"

text \<open>The value of one key of \<^verbatim>\<open>groups\<close>; the fields are the keys of the dictionary.\<close>

record group =
  count :: int
  ids :: "string option list"
  latest_date :: "nat option"
  subject :: "string option"
  sender_display :: "string option"
  has_list_unsubscribe :: bool

definition default_group :: group where
  "default_group =
     \<lparr>count = 0, ids = [], latest_date = None, subject = None, sender_display = None,
      has_list_unsubscribe = False\<rparr>"

text \<open>
  A Python dictionary keeps its keys in insertion order, and \<^verbatim>\<open>sorted\<close> is stable, so the
  mapping is an association list: assigning to a present key keeps its place, a new key goes
  to the end.
\<close>

type_synonym groups = "(string \<times> group) list"

fun dict_set :: "string \<Rightarrow> group \<Rightarrow> groups \<Rightarrow> groups" where
  "dict_set k v [] = [(k, v)]"
| "dict_set k v ((k', v') # kvs) =
     (if k' = k then (k, v) # kvs else (k', v') # dict_set k v kvs)"

definition dict_get_default :: "groups \<Rightarrow> string \<Rightarrow> group" where
  "dict_get_default gs k = (case map_of gs k of None \<Rightarrow> default_group | Some g \<Rightarrow> g)"

subsection \<open>The regular expression \<^verbatim>\<open><(.*?)>\<close>\<close>

text \<open>
  \<open>lazy_group cs\<close> matches \<^verbatim>\<open>(.*?)>\<close> at the start of \<open>cs\<close>: the shortest run of characters
  other than a newline that is followed by \<^verbatim>\<open>>\<close>. \<open>pattern_search\<close> is
  \<^verbatim>\<open>sender_email_pattern.search(s)\<close>, returning \<^verbatim>\<open>match.group(1)\<close> of the leftmost match.
\<close>

fun lazy_group :: "string \<Rightarrow> string option" where
  "lazy_group [] = None"
| "lazy_group (c # cs) =
     (if c = CHR ''>'' then Some []
      else if c = CHR 0x0A then None
      else map_option ((#) c) (lazy_group cs))"

fun pattern_search :: "string \<Rightarrow> string option" where
  "pattern_search [] = None"
| "pattern_search (c # cs) =
     (if c = CHR ''<'' then
        (case lazy_group cs of Some g \<Rightarrow> Some g | None \<Rightarrow> pattern_search cs)
      else pattern_search cs)"

subsection \<open>\<^verbatim>\<open>group_emails\<close>\<close>

text \<open>The local variables that the loop over the headers of one message assigns.\<close>

record locals =
  sender :: string
  sender_email :: "string option"
  msg_subject :: string
  date_str :: "string option"
  msg_has_list_unsubscribe :: bool

definition init_locals :: locals where
  "init_locals =
     \<lparr>sender = ''Unknown Sender'', sender_email = None, msg_subject = ''No Subject'',
      date_str = None, msg_has_list_unsubscribe = False\<rparr>"

text \<open>
  The sender address of a decoded From text: the address part of \<^verbatim>\<open>parseaddr\<close> when it is
  not empty, else the first group of the pattern, else the whole text.
\<close>

definition extract_sender_email :: "lib \<Rightarrow> string \<Rightarrow> string" where
  "extract_sender_email L s =
     (let addr = parseaddr L s in
      if snd addr \<noteq> [] then snd addr
      else (case pattern_search s of Some g \<Rightarrow> g | None \<Rightarrow> s))"

definition scan_header :: "lib \<Rightarrow> locals \<Rightarrow> header \<Rightarrow> error + locals" where
  "scan_header L v h =
     (let name = lower (hname h); val = hvalue h in
      if name = ''from'' then
        (case decode_email_header L val of
           Inl e \<Rightarrow> Inl e
         | Inr s \<Rightarrow> Inr (v\<lparr>sender := s, sender_email := Some (extract_sender_email L s)\<rparr>))
      else if name = ''subject'' then
        (case decode_email_header L val of
           Inl e \<Rightarrow> Inl e
         | Inr s \<Rightarrow> Inr (v\<lparr>msg_subject := s\<rparr>))
      else if name = ''date'' then Inr (v\<lparr>date_str := Some val\<rparr>)
      else if name = ''list-unsubscribe'' then Inr (v\<lparr>msg_has_list_unsubscribe := True\<rparr>)
      else Inr v)"

fun scan_headers :: "lib \<Rightarrow> locals \<Rightarrow> header list \<Rightarrow> error + locals" where
  "scan_headers L v [] = Inr v"
| "scan_headers L v (h # hs) =
     (case scan_header L v h of Inl e \<Rightarrow> Inl e | Inr v' \<Rightarrow> scan_headers L v' hs)"

text \<open>
  The \<^verbatim>\<open>try\<close> block of the date: a success of the parser updates the three latest-fields
  together when the date is strictly later; a failure is caught and the warning printed in
  the handler, from which an exception of \<^verbatim>\<open>console.print\<close> leaves the function.
\<close>

definition update_latest ::
  "lib \<Rightarrow> locals \<Rightarrow> string \<Rightarrow> group \<Rightarrow> error + group \<times> warning list" where
  "update_latest L v k g =
     (case date_str v of
        None \<Rightarrow> Inr (g, [])
      | Some d \<Rightarrow>
          if d = [] then Inr (g, [])
          else
            (case parse_utc L d of
               Inl e \<Rightarrow>
                 (case console_print L [d, k, parse_error_text L d]
                         (date_warning_text d k (parse_error_text L d)) of
                    Some e' \<Rightarrow> Inl e'
                  | None \<Rightarrow> Inr (g, [DateParseFailed d k e]))
             | Inr msg_date \<Rightarrow>
                 (case latest_date g of
                    None \<Rightarrow>
                      Inr (g\<lparr>latest_date := Some msg_date, subject := Some (msg_subject v),
                             sender_display := Some (sender v)\<rparr>, [])
                  | Some cur \<Rightarrow>
                      if msg_date > cur then
                        Inr (g\<lparr>latest_date := Some msg_date, subject := Some (msg_subject v),
                               sender_display := Some (sender v)\<rparr>, [])
                      else Inr (g, []))))"

text \<open>
  The branch \<^verbatim>\<open>if not sender_email\<close>: the warning is printed and the message skipped; an
  exception of \<^verbatim>\<open>console.print\<close> leaves the function.
\<close>

definition skip_message ::
  "lib \<Rightarrow> groups \<times> warning list \<Rightarrow> locals \<Rightarrow> error + groups \<times> warning list" where
  "skip_message L st v =
     (case console_print L [sender v] (no_sender_text (sender v)) of
        Some e \<Rightarrow> Inl e
      | None \<Rightarrow> Inr (fst st, snd st @ [NoSenderEmail (sender v)]))"

text \<open>The body of the loop over the messages, on the state (\<^verbatim>\<open>groups\<close>, warnings printed).\<close>

definition process_msg ::
  "lib \<Rightarrow> groups \<times> warning list \<Rightarrow> message \<Rightarrow> error + groups \<times> warning list" where
  "process_msg L st msg =
     (case scan_headers L init_locals (headers_of msg) of
        Inl e \<Rightarrow> Inl e
      | Inr v \<Rightarrow>
          (case sender_email v of
             None \<Rightarrow> skip_message L st v
           | Some k \<Rightarrow>
               if k = [] then skip_message L st v
               else
                 (let current_group = dict_get_default (fst st) k;
                      g1 = current_group
                        \<lparr>count := count current_group + 1,
                         ids := ids current_group @ [msg_id msg],
                         has_list_unsubscribe :=
                           has_list_unsubscribe current_group \<or> msg_has_list_unsubscribe v\<rparr>
                  in case update_latest L v k g1 of
                       Inl e \<Rightarrow> Inl e
                     | Inr r \<Rightarrow> Inr (dict_set k (fst r) (fst st), snd st @ snd r))))"

fun group_loop ::
  "lib \<Rightarrow> groups \<times> warning list \<Rightarrow> message list \<Rightarrow> error + groups \<times> warning list" where
  "group_loop L st [] = Inr st"
| "group_loop L st (msg # msgs) =
     (case process_msg L st msg of Inl e \<Rightarrow> Inl e | Inr st' \<Rightarrow> group_loop L st' msgs)"

text \<open>
  The filter at the end, and the function itself. The Python function returns the filtered
  mapping; the model returns it together with the warnings printed during the run, and
  \<open>Inl\<close> when the run ends with an exception.
\<close>

definition retained :: "string \<times> group \<Rightarrow> bool" where
  "retained item = (has_list_unsubscribe (snd item) \<or> count (snd item) > 1)"

definition group_emails :: "lib \<Rightarrow> message list \<Rightarrow> error + groups \<times> warning list" where
  "group_emails L messages =
     (case group_loop L ([], []) messages of
        Inl e \<Rightarrow> Inl e
      | Inr st \<Rightarrow> Inr (filter retained (fst st), snd st))"

subsection \<open>\<^verbatim>\<open>sort_groups\<close>\<close>

text \<open>
  \<^verbatim>\<open>sorted(items, key=k, reverse=True)\<close> is a stable sort in descending order of the key: the
  list is reversed, sorted stably in ascending order, and reversed again.
\<close>

definition sorted_reverse :: "('a \<Rightarrow> 'k::linorder) \<Rightarrow> 'a list \<Rightarrow> 'a list" where
  "sorted_reverse key xs = rev (sort_key key (rev xs))"

text \<open>\<^verbatim>\<open>item[1]['latest_date'] or datetime.min.replace(tzinfo=timezone.utc)\<close>\<close>

definition latest_or_min :: "group \<Rightarrow> nat" where
  "latest_or_min g = (case latest_date g of None \<Rightarrow> datetime_min_utc | Some t \<Rightarrow> t)"

definition count_key :: "string \<times> group \<Rightarrow> int \<times> nat" where
  "count_key item = (count (snd item), latest_or_min (snd item))"

definition date_key :: "string \<times> group \<Rightarrow> nat \<times> int" where
  "date_key item = (latest_or_min (snd item), count (snd item))"

text \<open>
  The function prints the criteria first (line 227) and, for a criteria that is neither
  \<^verbatim>\<open>count\<close> nor \<^verbatim>\<open>date\<close>, the warning (line 235); an exception of either print leaves the
  function. It returns the sorted items; the model adds the warnings printed.
\<close>

definition sort_groups :: "lib \<Rightarrow> groups \<Rightarrow> string \<Rightarrow> error + groups \<times> warning list" where
  "sort_groups L gs criteria =
     (case console_print L [criteria] (sorting_text criteria) of
        Some e \<Rightarrow> Inl e
      | None \<Rightarrow>
          if criteria = ''count'' then Inr (sorted_reverse count_key gs, [])
          else if criteria = ''date'' then Inr (sorted_reverse date_key gs, [])
          else
            (case console_print L [criteria] (invalid_criteria_text criteria) of
               Some e \<Rightarrow> Inl e
             | None \<Rightarrow> Inr (sorted_reverse count_key gs, [InvalidCriteria criteria])))"

subsection \<open>Query generation\<close>

definition generate_filter_query :: "string \<Rightarrow> string" where
  "generate_filter_query sender_addr = ''from:('' @ sender_addr @ '')''"

text \<open>\<^verbatim>\<open>full_filter_string = f"{args.query} {filter_query}"\<close> in \<^verbatim>\<open>main\<close>.\<close>

definition full_filter_string :: "string \<Rightarrow> string \<Rightarrow> string" where
  "full_filter_string query sender_addr = query @ '' '' @ generate_filter_query sender_addr"

text \<open>
  \<^verbatim>\<open>urllib.parse.quote_plus\<close>, on the UTF-8 bytes of the text: \<^verbatim>\<open>quote\<close> keeps the bytes of
  the always-safe set and of \<open>safe\<close> and writes every other byte as \<^verbatim>\<open>%XX\<close> in upper-case
  hexadecimal; \<^verbatim>\<open>quote_plus\<close> calls it with the space added to \<open>safe\<close> and then replaces each
  space by \<^verbatim>\<open>+\<close>.
\<close>

definition always_safe :: "char \<Rightarrow> bool" where
  "always_safe c =
     (c \<in> set ''ABCDEFGHIJKLMNOPQRSTUVWXYZabcdefghijklmnopqrstuvwxyz0123456789_.-~'')"

definition hex_digit :: "nat \<Rightarrow> char" where
  "hex_digit n = ''0123456789ABCDEF'' ! n"

definition quote_byte :: "string \<Rightarrow> char \<Rightarrow> string" where
  "quote_byte safe c =
     (if c \<in> set safe \<or> always_safe c then [c]
      else [CHR ''%'', hex_digit (of_char c div 16), hex_digit (of_char c mod 16)])"

definition quote :: "string \<Rightarrow> string \<Rightarrow> string" where
  "quote safe s = concat (map (quote_byte safe) s)"

definition quote_plus :: "string \<Rightarrow> string" where
  "quote_plus s =
     (if CHR '' '' \<notin> set s then quote [] s
      else map (\<lambda>c. if c = CHR '' '' then CHR ''+'' else c) (quote '' '' s))"

definition search_url :: "string \<Rightarrow> string \<Rightarrow> string" where
  "search_url query sender_addr =
     ''https://mail.google.com/mail/u/0/#search/'' @ quote_plus (full_filter_string query sender_addr)"

subsection \<open>Decoding a URL fragment\<close>

text \<open>
  The program never decodes a URL; the two decoders below are the reference against which the
  round trip is stated. \<open>unquote\<close> is percent-decoding (\<^verbatim>\<open>urllib.parse.unquote\<close> on bytes):
  \<^verbatim>\<open>%\<close> followed by two hexadecimal digits is one byte, anything else stands for itself.
  \<open>unquote_plus\<close> first turns each \<^verbatim>\<open>+\<close> into a space (\<^verbatim>\<open>urllib.parse.unquote_plus\<close>).
\<close>

definition hex_val :: "char \<Rightarrow> nat option" where
  "hex_val c =
     (let n = (of_char c :: nat) in
      if 48 \<le> n \<and> n \<le> 57 then Some (n - 48)
      else if 65 \<le> n \<and> n \<le> 70 then Some (n - 55)
      else if 97 \<le> n \<and> n \<le> 102 then Some (n - 87)
      else None)"

fun unquote :: "string \<Rightarrow> string" where
  "unquote [] = []"
| "unquote (c # h # l # cs) =
     (if c = CHR ''%'' then
        (case (hex_val h, hex_val l) of
           (Some a, Some b) \<Rightarrow> char_of (16 * a + b) # unquote cs
         | _ \<Rightarrow> c # unquote (h # l # cs))
      else c # unquote (h # l # cs))"
| "unquote (c # cs) = c # unquote cs"

definition unquote_plus :: "string \<Rightarrow> string" where
  "unquote_plus s = unquote (map (\<lambda>c. if c = CHR ''+'' then CHR '' '' else c) s)"

subsection \<open>What the Grouper sees of one message\<close>

text \<open>
  The values of the local variables after the loop over the headers of a message, the key
  under which the message is counted (none when it is skipped for want of a sender address),
  and the date that the \<^verbatim>\<open>try\<close> block parses (none when the header is absent, empty or
  rejected by the parser).
\<close>

definition msg_locals :: "lib \<Rightarrow> message \<Rightarrow> error + locals" where
  "msg_locals L msg = scan_headers L init_locals (headers_of msg)"

definition msg_key :: "lib \<Rightarrow> message \<Rightarrow> string option" where
  "msg_key L msg =
     (case msg_locals L msg of
        Inl e \<Rightarrow> None
      | Inr v \<Rightarrow> (case sender_email v of None \<Rightarrow> None | Some k \<Rightarrow> if k = [] then None else Some k))"

definition msg_date :: "lib \<Rightarrow> message \<Rightarrow> nat option" where
  "msg_date L msg =
     (case msg_locals L msg of
        Inl e \<Rightarrow> None
      | Inr v \<Rightarrow>
          (case date_str v of
             None \<Rightarrow> None
           | Some d \<Rightarrow>
               if d = [] then None
               else (case parse_utc L d of Inl e \<Rightarrow> None | Inr t \<Rightarrow> Some t)))"

definition msg_unsub :: "lib \<Rightarrow> message \<Rightarrow> bool" where
  "msg_unsub L msg =
     (case msg_locals L msg of Inl e \<Rightarrow> False | Inr v \<Rightarrow> msg_has_list_unsubscribe v)"

definition members :: "lib \<Rightarrow> string \<Rightarrow> message list \<Rightarrow> message list" where
  "members L k msgs = filter (\<lambda>m. msg_key L m = Some k) msgs"



text \<open>
  The group that lines 202 to 211 leave when they raise nothing; the effect of one counted
  message on the group of its key (lines 197 to 211), and its effect on a group \<open>g\<close> given
  only the message; the sum of the counts of a mapping.
\<close>

definition set_latest :: "lib \<Rightarrow> locals \<Rightarrow> group \<Rightarrow> group" where
  "set_latest L v g =
     (case date_str v of
        None \<Rightarrow> g
      | Some d \<Rightarrow>
          if d = [] then g
          else
            (case parse_utc L d of
               Inl e \<Rightarrow> g
             | Inr t \<Rightarrow>
                 (case latest_date g of
                    None \<Rightarrow>
                      g\<lparr>latest_date := Some t, subject := Some (msg_subject v),
                        sender_display := Some (sender v)\<rparr>
                  | Some cur \<Rightarrow>
                      if t > cur then
                        g\<lparr>latest_date := Some t, subject := Some (msg_subject v),
                          sender_display := Some (sender v)\<rparr>
                      else g)))"

definition add_message :: "lib \<Rightarrow> locals \<Rightarrow> string \<Rightarrow> message \<Rightarrow> group \<Rightarrow> group" where
  "add_message L v k msg g =
     set_latest L v
       (g\<lparr>count := count g + 1, ids := ids g @ [msg_id msg],
          has_list_unsubscribe := has_list_unsubscribe g \<or> msg_has_list_unsubscribe v\<rparr>)"

definition apply_msg :: "lib \<Rightarrow> string \<Rightarrow> group \<Rightarrow> message \<Rightarrow> group" where
  "apply_msg L k g msg =
     (case msg_locals L msg of Inl e \<Rightarrow> g | Inr v \<Rightarrow> add_message L v k msg g)"

definition total_count :: "groups \<Rightarrow> int" where
  "total_count gs = sum_list (map (\<lambda>item. count (snd item)) gs)"

subsection \<open>Sample inputs\<close>

text \<open>
  A library instance for the examples: each function returns what CPython 3,
  \<^verbatim>\<open>dateutil\<close> and \<^verbatim>\<open>rich\<close> return on the texts used below (a header without an encoded word
  decodes to itself; \<^verbatim>\<open>=?bogus?q?abc?=\<close> declares the unknown charset \<^verbatim>\<open>bogus\<close>; a date
  warning for the date text \<^verbatim>\<open>[/x]\<close> has the closing tag \<^verbatim>\<open>[/x]\<close> at position 39, where
  only \<^verbatim>\<open>yellow\<close> is open). Instants are microseconds since the minimal datetime: 2024-01-01
  is day 738885 after 0001-01-01.
\<close>

definition sample_decode_header :: "string \<Rightarrow> error + (pystr \<times> string option) list" where
  "sample_decode_header s =
     (if s = ''=?bogus?q?abc?='' then Inr [(Bytes ''abc'', Some ''bogus'')]
      else Inr [(Str s, None)])"

definition sample_bytes_decode :: "string \<Rightarrow> string \<Rightarrow> error + string" where
  "sample_bytes_decode b cs = (if cs = ''utf-8'' then Inr b else Inl LookupError)"

definition sample_parseaddr :: "string \<Rightarrow> string \<times> string" where
  "sample_parseaddr s =
     (if s = ''a@b.com'' then ('''', ''a@b.com'')
      else if s = ''A@B.com'' then ('''', ''A@B.com'')
      else if s = ''News <news@x.org>'' then (''News'', ''news@x.org'')
      else ('''', ''''))"

definition sample_parse_utc :: "string \<Rightarrow> error + nat" where
  "sample_parse_utc s =
     (if s = ''Mon, 01 Jan 2024 00:00:00 +0000'' then Inr (738885 * 86400000000)
      else if s = ''Thu, 01 Feb 2024 00:00:00 +0000'' then Inr (738916 * 86400000000)
      else Inl ParserError)"

definition sample_parse_error_text :: "string \<Rightarrow> string" where
  "sample_parse_error_text s = ''Unknown string format: '' @ s"

definition sample_print_markup :: "string \<Rightarrow> error option" where
  "sample_print_markup text =
     (if take 43 text = ''[yellow]Warning: Could not parse date '' @ [CHR 0x27] @ ''[/x]''
      then Some MarkupError else None)"

definition sample_lib :: lib where
  "sample_lib =
     \<lparr>decode_header = sample_decode_header, bytes_decode = sample_bytes_decode,
      parseaddr = sample_parseaddr, parse_utc = sample_parse_utc,
      parse_error_text = sample_parse_error_text, print_markup = sample_print_markup\<rparr>"

definition mk_message :: "string \<Rightarrow> (string \<times> string) list \<Rightarrow> message" where
  "mk_message i hs = Message (Some i) (Some (Payload (Some (map (\<lambda>(n, v). Header n v) hs))))"

definition plain_a :: message where
  "plain_a =
     mk_message ''m1'' [(''From'', ''a@b.com''), (''List-Unsubscribe'', ''<mailto:u@b.com>'')]"

definition bogus_from :: message where
  "bogus_from =
     mk_message ''m2''
       [(''From'', ''=?bogus?q?abc?=''), (''List-Unsubscribe'', ''<mailto:u@x.org>'')]"


text \<open>
  The messages of the input that are counted in some group, and the groups of a mapping that
  the filter at the end of \<^verbatim>\<open>group_emails\<close> leaves out.
\<close>

definition counted :: "lib \<Rightarrow> message list \<Rightarrow> message list" where
  "counted L msgs = filter (\<lambda>m. msg_key L m \<noteq> None) msgs"

definition dropped_groups :: "groups \<Rightarrow> groups" where
  "dropped_groups gs = filter (\<lambda>item. \<not> retained item) gs"


definition lone_news :: message where
  "lone_news =
     mk_message ''m4''
       [(''From'', ''News <news@x.org>''), (''Subject'', ''Hello''),
        (''Date'', ''Mon, 01 Jan 2024 00:00:00 +0000'')]"

text \<open>The mappings that the sample runs produce.\<close>

definition group_a :: group where
  "group_a =
     \<lparr>count = 1, ids = [Some ''m1''], latest_date = None, subject = None,
      sender_display = None, has_list_unsubscribe = True\<rparr>"

definition group_news :: group where
  "group_news =
     \<lparr>count = 1, ids = [Some ''m4''], latest_date = Some (738885 * 86400000000),
      subject = Some ''Hello'', sender_display = Some ''News <news@x.org>'',
      has_list_unsubscribe = False\<rparr>"



text \<open>
  Records without a payload, without a header list, and with an empty one; a mapping with
  one dated group, and a message of the same sender whose date the parser rejects.
\<close>

definition no_payload_msgs :: "message list" where
  "no_payload_msgs = [Message (Some ''m1'') None, Message (Some ''m2'') (Some (Payload None))]"

definition no_header_msgs :: "message list" where
  "no_header_msgs =
     [Message (Some ''m1'') None, Message None (Some (Payload None)),
      Message (Some ''m3'') (Some (Payload (Some [])))]"

definition dated_groups :: groups where
  "dated_groups = [(''news@x.org'', group_news)]"

definition bad_date_news :: message where
  "bad_date_news =
     mk_message ''m5''
       [(''From'', ''News <news@x.org>''), (''Subject'', ''Later''), (''Date'', ''not a date'')]"

definition markup_date :: message where
  "markup_date = mk_message ''m7'' [(''From'', ''a@b.com''), (''Date'', ''[/x]'')]"

definition bad_date_locals :: locals where
  "bad_date_locals =
     \<lparr>sender = ''News <news@x.org>'', sender_email = Some ''news@x.org'',
      msg_subject = ''Later'', date_str = Some ''not a date'',
      msg_has_list_unsubscribe = False\<rparr>"

text \<open>
  The latest-fields of a group \<open>g\<close> agree with the messages \<open>ms\<close> counted in it: all three
  are unset and no message has a parsed date, or all three come from one message whose parsed
  date is the greatest.
\<close>

definition latest_inv :: "lib \<Rightarrow> message list \<Rightarrow> group \<Rightarrow> bool" where
  "latest_inv L ms g \<longleftrightarrow>
     (case latest_date g of
        None \<Rightarrow>
          subject g = None \<and> sender_display g = None \<and> (\<forall>m \<in> set ms. msg_date L m = None)
      | Some t \<Rightarrow>
          (\<exists>m \<in> set ms. \<exists>v. msg_locals L m = Inr v \<and> msg_date L m = Some t \<and>
             subject g = Some (msg_subject v) \<and> sender_display g = Some (sender v)) \<and>
          (\<forall>m \<in> set ms. \<forall>t'. msg_date L m = Some t' \<longrightarrow> t' \<le> t))"

text \<open>Three messages of one sender: a dated one, one with a bad date, and a later one.\<close>

definition later_news :: message where
  "later_news =
     mk_message ''m6''
       [(''From'', ''News <news@x.org>''), (''Subject'', ''Newer''),
        (''Date'', ''Thu, 01 Feb 2024 00:00:00 +0000'')]"

definition news_msgs :: "message list" where
  "news_msgs = [lone_news, bad_date_news, later_news, lone_news]"

definition news_group :: group where
  "news_group =
     \<lparr>count = 4, ids = [Some ''m4'', Some ''m5'', Some ''m6'', Some ''m4''],
      latest_date = Some (738916 * 86400000000), subject = Some ''Newer'',
      sender_display = Some ''News <news@x.org>'', has_list_unsubscribe = False\<rparr>"

definition later_locals :: locals where
  "later_locals =
     \<lparr>sender = ''News <news@x.org>'', sender_email = Some ''news@x.org'',
      msg_subject = ''Newer'', date_str = Some ''Thu, 01 Feb 2024 00:00:00 +0000'',
      msg_has_list_unsubscribe = False\<rparr>"

text \<open>
  The three groups of the ranking example: A (count 5, 2024-01-01), B (count 5, 2024-02-01)
  and C (count 3, 2024-03-01), under the keys \<^verbatim>\<open>a@x.org\<close>, \<^verbatim>\<open>b@x.org\<close> and \<^verbatim>\<open>c@x.org\<close>.
\<close>

definition item_A :: "string \<times> group" where
  "item_A =
     (''a@x.org'',
      \<lparr>count = 5, ids = [Some ''a1'', Some ''a2'', Some ''a3'', Some ''a4'', Some ''a5''],
       latest_date = Some (738885 * 86400000000), subject = Some ''A'',
       sender_display = Some ''a@x.org'', has_list_unsubscribe = False\<rparr>)"

definition item_B :: "string \<times> group" where
  "item_B =
     (''b@x.org'',
      \<lparr>count = 5, ids = [Some ''b1'', Some ''b2'', Some ''b3'', Some ''b4'', Some ''b5''],
       latest_date = Some (738916 * 86400000000), subject = Some ''B'',
       sender_display = Some ''b@x.org'', has_list_unsubscribe = False\<rparr>)"

definition item_C :: "string \<times> group" where
  "item_C =
     (''c@x.org'',
      \<lparr>count = 3, ids = [Some ''c1'', Some ''c2'', Some ''c3''],
       latest_date = Some (738945 * 86400000000), subject = Some ''C'',
       sender_display = Some ''c@x.org'', has_list_unsubscribe = False\<rparr>)"

text \<open>
  The two orders of the ranking, written out: \<open>count_first a b\<close> when \<open>a\<close> may stand before
  \<open>b\<close> in a ranking by count, \<open>date_first a b\<close> in a ranking by date. A group without a
  latest date is compared as the minimal instant.
\<close>

definition instant_of :: "group \<Rightarrow> nat" where
  "instant_of g = (case latest_date g of None \<Rightarrow> 0 | Some t \<Rightarrow> t)"

definition count_first :: "string \<times> group \<Rightarrow> string \<times> group \<Rightarrow> bool" where
  "count_first a b \<longleftrightarrow>
     count (snd a) > count (snd b) \<or>
     (count (snd a) = count (snd b) \<and> instant_of (snd a) \<ge> instant_of (snd b))"

definition date_first :: "string \<times> group \<Rightarrow> string \<times> group \<Rightarrow> bool" where
  "date_first a b \<longleftrightarrow>
     instant_of (snd a) > instant_of (snd b) \<or>
     (instant_of (snd a) = instant_of (snd b) \<and> count (snd a) \<ge> count (snd b))"

text \<open>
  What \<^verbatim>\<open>quote_plus\<close> writes for one byte, and the replacement that \<^verbatim>\<open>unquote_plus\<close>
  makes first.
\<close>

definition plus_byte :: "char \<Rightarrow> string" where
  "plus_byte c =
     (if c = CHR '' '' then ''+''
      else if always_safe c then [c]
      else [CHR ''%'', hex_digit (of_char c div 16), hex_digit (of_char c mod 16)])"

definition plus_to_space :: "char \<Rightarrow> char" where
  "plus_to_space c = (if c = CHR ''+'' then CHR '' '' else c)"

section \<open>Properties\<close>

subsection \<open>Exceptions leave the loops\<close>

lemma scan_header_decode_failure:
  assumes "lower (hname h) = ''from'' \<or> lower (hname h) = ''subject''"
    and "decode_email_header L (hvalue h) = Inl e"
  shows "scan_header L v h = Inl e"
  using assms by (auto simp: scan_header_def Let_def)

lemma scan_headers_decode_failure:
  assumes "h \<in> set hs"
    and "lower (hname h) = ''from'' \<or> lower (hname h) = ''subject''"
    and "decode_email_header L (hvalue h) = Inl e"
  shows "isl (scan_headers L v hs)"
  using assms
proof (induction hs arbitrary: v)
  case Nil
  then show ?case by simp
next
  case (Cons x xs)
  show ?case
  proof (cases "scan_header L v x")
    case (Inl e')
    then show ?thesis by simp
  next
    case (Inr v')
    with Cons.prems have "x \<noteq> h"
      using scan_header_decode_failure[of h L e v] by auto
    with Cons.prems have "h \<in> set xs" by simp
    from Cons.IH[OF this Cons.prems(2,3)] Inr show ?thesis by simp
  qed
qed

lemma process_msg_scan_failure:
  "isl (msg_locals L m) \<Longrightarrow> isl (process_msg L st m)"
  by (auto simp: process_msg_def msg_locals_def split: sum.splits)

lemma group_loop_scan_failure:
  assumes "m \<in> set msgs" and "isl (msg_locals L m)"
  shows "isl (group_loop L st msgs)"
  using assms
proof (induction msgs arbitrary: st)
  case Nil
  then show ?case by simp
next
  case (Cons x xs)
  show ?case
  proof (cases "process_msg L st x")
    case (Inl e)
    then show ?thesis by simp
  next
    case (Inr st')
    with Cons.prems have "x \<noteq> m"
      using process_msg_scan_failure[of L m st] by auto
    with Cons.prems have "m \<in> set xs" by simp
    from Cons.IH[OF this Cons.prems(2)] Inr show ?thesis by simp
  qed
qed

subsection \<open>C1: a header that fails to decode\<close>

text \<open>
  C1 as stated does not hold: \<^verbatim>\<open>group_emails\<close> calls \<^verbatim>\<open>decode_email_header\<close> outside any
  \<^verbatim>\<open>try\<close>. With a From header that declares the unknown charset \<^verbatim>\<open>bogus\<close> the decoder
  raises \<^verbatim>\<open>LookupError\<close> and so does the whole run, although the other message alone
  groups without error: no raw-text fallback is substituted and no warning is printed.
\<close>

theorem decode_failure_not_caught:
  "decode_email_header sample_lib ''=?bogus?q?abc?='' = Inl LookupError \<and>
   group_emails sample_lib [plain_a, bogus_from] = Inl LookupError \<and>
   group_emails sample_lib [plain_a] =
     Inr ([(''a@b.com'', \<lparr>count = 1, ids = [Some ''m1''], latest_date = None, subject = None,
            sender_display = None, has_list_unsubscribe = True\<rparr>)], [])"
  by code_simp

text \<open>
  C1, amended: when the value of a From or Subject header (the name compared without regard
  to case) of any message of the input fails to decode, the failure is not caught by the
  Grouper: \<^verbatim>\<open>group_emails\<close> ends with an exception and returns no mapping.
\<close>

theorem decode_failure_aborts_grouping:
  assumes "m \<in> set messages" and "h \<in> set (headers_of m)"
    and "lower (hname h) = ''from'' \<or> lower (hname h) = ''subject''"
    and "decode_email_header L (hvalue h) = Inl e"
  shows "isl (group_emails L messages)"
proof -
  have "isl (msg_locals L m)"
    unfolding msg_locals_def using assms(2-4) by (rule scan_headers_decode_failure)
  with assms(1) have "isl (group_loop L ([], []) messages)"
    by (rule group_loop_scan_failure)
  then show ?thesis
    by (auto simp: group_emails_def split: sum.splits)
qed

theorem decode_failure_aborts_grouping_witness:
  "isl (group_emails sample_lib [plain_a, bogus_from])"
proof -
  have 1: "bogus_from \<in> set [plain_a, bogus_from]" by simp
  have 2: "Header ''From'' ''=?bogus?q?abc?='' \<in> set (headers_of bogus_from)"
    by (simp add: bogus_from_def mk_message_def headers_of_def)
  have 3: "lower (hname (Header ''From'' ''=?bogus?q?abc?='')) = ''from'' \<or>
           lower (hname (Header ''From'' ''=?bogus?q?abc?='')) = ''subject''"
    by code_simp
  have 4: "decode_email_header sample_lib (hvalue (Header ''From'' ''=?bogus?q?abc?=''))
           = Inl LookupError"
    by code_simp
  show ?thesis by (rule decode_failure_aborts_grouping[OF 1 2 3 4])
qed

subsection \<open>The loop over the headers of one message\<close>











subsection \<open>C10: repeated headers\<close>



subsection \<open>The mapping after the loop over the messages\<close>

lemma map_of_dict_set: "map_of (dict_set k v gs) = (map_of gs)(k \<mapsto> v)"
  by (induction gs) (auto simp: fun_eq_iff)

lemma keys_dict_set:
  "fst ` set (dict_set k v gs) = insert k (fst ` set gs)"
  by (simp add: dom_map_of_conv_image_fst[symmetric] map_of_dict_set)

lemma distinct_dict_set:
  "distinct (map fst gs) \<Longrightarrow> distinct (map fst (dict_set k v gs))"
  by (induction gs) (auto simp: keys_dict_set)

lemma total_count_dict_set:
  "total_count (dict_set k v gs) = total_count gs - count (dict_get_default gs k) + count v"
  by (induction gs) (auto simp: total_count_def dict_get_default_def default_group_def)

lemma process_msg_dropped:
  assumes "msg_key L m = None" and "process_msg L (gs, log) m = Inr (gs', log')"
  shows "gs' = gs \<and> (\<exists>s. log' = log @ [NoSenderEmail s])"
  using assms
  by (auto simp: process_msg_def msg_key_def msg_locals_def skip_message_def
      split: sum.splits option.splits if_splits)

lemma update_latest_Inr:
  "update_latest L v k g = Inr r \<Longrightarrow> fst r = set_latest L v g"
  by (auto simp: update_latest_def set_latest_def split: option.splits sum.splits if_splits)

lemma process_msg_counted:
  assumes "msg_key L m = Some k" and "process_msg L (gs, log) m = Inr (gs', log')"
  shows "gs' = dict_set k (apply_msg L k (dict_get_default gs k) m) gs"
  using assms
  by (auto simp: process_msg_def msg_key_def msg_locals_def apply_msg_def add_message_def Let_def
      dest!: update_latest_Inr split: sum.splits option.splits if_splits)

lemma process_msg_map_of:
  assumes "process_msg L (gs, log) m = Inr (gs', log')"
  shows "map_of gs' k =
         (if msg_key L m = Some k then Some (apply_msg L k (dict_get_default gs k) m)
          else map_of gs k)"
proof (cases "msg_key L m")
  case None
  with process_msg_dropped[OF None assms] show ?thesis by simp
next
  case (Some k')
  from process_msg_counted[OF Some assms] Some show ?thesis
    by (auto simp: map_of_dict_set)
qed

lemma process_msg_distinct:
  assumes "process_msg L (gs, log) m = Inr (gs', log')" and "distinct (map fst gs)"
  shows "distinct (map fst gs')"
proof (cases "msg_key L m")
  case None
  with process_msg_dropped[OF None assms(1)] assms(2) show ?thesis by simp
next
  case (Some k')
  from process_msg_counted[OF Some assms(1)] assms(2) show ?thesis
    by (simp add: distinct_dict_set)
qed

lemma count_set_latest: "count (set_latest L v g) = count g"
  by (simp add: set_latest_def split: option.splits sum.splits)


lemma unsub_set_latest:
  "has_list_unsubscribe (set_latest L v g) = has_list_unsubscribe g"
  by (simp add: set_latest_def split: option.splits sum.splits)

lemma msg_key_locals:
  "msg_key L m = Some k \<Longrightarrow> \<exists>v. msg_locals L m = Inr v \<and> sender_email v = Some k \<and> k \<noteq> []"
  by (auto simp: msg_key_def split: sum.splits option.splits if_splits)

lemma count_apply_msg:
  "msg_key L m = Some k \<Longrightarrow> count (apply_msg L k g m) = count g + 1"
  by (auto dest!: msg_key_locals simp: apply_msg_def add_message_def count_set_latest)


lemma unsub_apply_msg:
  "msg_key L m = Some k \<Longrightarrow>
   has_list_unsubscribe (apply_msg L k g m) = (has_list_unsubscribe g \<or> msg_unsub L m)"
  by (auto dest!: msg_key_locals simp: apply_msg_def add_message_def unsub_set_latest msg_unsub_def)

lemma process_msg_total:
  assumes "process_msg L (gs, log) m = Inr (gs', log')"
  shows "total_count gs' = total_count gs + (if msg_key L m = None then 0 else 1)"
proof (cases "msg_key L m")
  case None
  with process_msg_dropped[OF None assms] show ?thesis by simp
next
  case (Some k')
  from process_msg_counted[OF Some assms] Some show ?thesis
    by (simp add: total_count_dict_set count_apply_msg)
qed

lemma group_loop_map_of:
  assumes "group_loop L (gs0, log0) ms = Inr (gs, log)"
  shows "map_of gs k =
         (if members L k ms = [] then map_of gs0 k
          else Some (foldl (apply_msg L k) (dict_get_default gs0 k) (members L k ms)))"
  using assms
proof (induction ms arbitrary: gs0 log0)
  case Nil
  then show ?case by (simp add: members_def)
next
  case (Cons m ms)
  from Cons.prems obtain gs1 log1 where
    p: "process_msg L (gs0, log0) m = Inr (gs1, log1)" and
    l: "group_loop L (gs1, log1) ms = Inr (gs, log)"
    by (auto split: sum.splits)
  note ih = Cons.IH[OF l]
  note mo = process_msg_map_of[OF p, of k]
  show ?case
  proof (cases "msg_key L m = Some k")
    case True
    with mo have "dict_get_default gs1 k = apply_msg L k (dict_get_default gs0 k) m"
      by (simp add: dict_get_default_def)
    with ih mo True show ?thesis
      by (simp add: members_def)
  next
    case False
    with mo have "dict_get_default gs1 k = dict_get_default gs0 k"
      by (simp add: dict_get_default_def)
    with ih mo False show ?thesis
      by (simp add: members_def)
  qed
qed

lemma group_loop_distinct:
  assumes "group_loop L (gs0, log0) ms = Inr (gs, log)" and "distinct (map fst gs0)"
  shows "distinct (map fst gs)"
  using assms
proof (induction ms arbitrary: gs0 log0)
  case Nil
  then show ?case by simp
next
  case (Cons m ms)
  from Cons.prems(1) obtain gs1 log1 where
    p: "process_msg L (gs0, log0) m = Inr (gs1, log1)" and
    l: "group_loop L (gs1, log1) ms = Inr (gs, log)"
    by (auto split: sum.splits)
  from Cons.IH[OF l process_msg_distinct[OF p Cons.prems(2)]] show ?case .
qed

lemma group_loop_total:
  assumes "group_loop L (gs0, log0) ms = Inr (gs, log)"
  shows "total_count gs =
         total_count gs0 + int (length (filter (\<lambda>m. msg_key L m \<noteq> None) ms))"
  using assms
proof (induction ms arbitrary: gs0 log0)
  case Nil
  then show ?case by simp
next
  case (Cons m ms)
  from Cons.prems(1) obtain gs1 log1 where
    p: "process_msg L (gs0, log0) m = Inr (gs1, log1)" and
    l: "group_loop L (gs1, log1) ms = Inr (gs, log)"
    by (auto split: sum.splits)
  from Cons.IH[OF l] process_msg_total[OF p] show ?case by simp
qed

lemma fold_count:
  "\<forall>m \<in> set ms. msg_key L m = Some k \<Longrightarrow>
   count (foldl (apply_msg L k) g ms) = count g + int (length ms)"
  by (induction ms arbitrary: g) (simp_all add: count_apply_msg)


lemma fold_unsub:
  "\<forall>m \<in> set ms. msg_key L m = Some k \<Longrightarrow>
   has_list_unsubscribe (foldl (apply_msg L k) g ms) =
     (has_list_unsubscribe g \<or> (\<exists>m \<in> set ms. msg_unsub L m))"
  by (induction ms arbitrary: g) (auto simp: unsub_apply_msg)

lemma members_key: "\<forall>m \<in> set (members L k ms). msg_key L m = Some k"
  by (simp add: members_def)

lemma group_of_key:
  assumes "group_loop L ([], []) ms = Inr (gs, log)" and "(k, g) \<in> set gs"
  shows "members L k ms \<noteq> [] \<and> g = foldl (apply_msg L k) default_group (members L k ms)"
proof -
  have "distinct (map fst gs)"
    using group_loop_distinct[OF assms(1)] by simp
  with assms(2) have "map_of gs k = Some g" by simp
  with group_loop_map_of[OF assms(1), of k] show ?thesis
    by (auto simp: dict_get_default_def split: if_splits)
qed

lemma key_of_members:
  assumes "group_loop L ([], []) ms = Inr (gs, log)" and "members L k ms \<noteq> []"
  shows "(k, foldl (apply_msg L k) default_group (members L k ms)) \<in> set gs"
proof -
  from group_loop_map_of[OF assms(1), of k] assms(2)
  have "map_of gs k = Some (foldl (apply_msg L k) default_group (members L k ms))"
    by (simp add: dict_get_default_def)
  then show ?thesis by (rule map_of_SomeD)
qed

lemma group_count:
  assumes "group_loop L ([], []) ms = Inr (gs, log)" and "(k, g) \<in> set gs"
  shows "count g = int (length (members L k ms))"
  using group_of_key[OF assms] fold_count[OF members_key, of L k default_group ms]
  by (simp add: default_group_def)


lemma group_unsub:
  assumes "group_loop L ([], []) ms = Inr (gs, log)" and "(k, g) \<in> set gs"
  shows "has_list_unsubscribe g = (\<exists>m \<in> set (members L k ms). msg_unsub L m)"
  using group_of_key[OF assms] fold_unsub[OF members_key, of L k default_group ms]
  by (simp add: default_group_def)

lemma group_emails_Inr:
  assumes "group_emails L msgs = Inr (out, log)"
  shows "\<exists>gs. group_loop L ([], []) msgs = Inr (gs, log) \<and> out = filter retained gs"
  using assms by (auto simp: group_emails_def split: sum.splits)

lemma total_count_filter:
  assumes "\<forall>item \<in> set gs. \<not> retained item \<longrightarrow> count (snd item) = 1"
  shows "total_count (filter retained gs) = total_count gs - int (length (dropped_groups gs))"
  using assms by (induction gs) (auto simp: total_count_def dropped_groups_def)

subsection \<open>C3: the keys of the mapping\<close>




subsection \<open>C6: the retention filter\<close>

text \<open>
  C6: when the Grouper returns, an item of the mapping built by the loop is in the returned
  mapping if and only if its unsubscribe flag is set or its count exceeds 1. In terms of the
  input: a sender key appears in the output if and only if some message counted under it
  carries a List-Unsubscribe header or more than one message is counted under it; a sender
  with exactly one message and no List-Unsubscribe header does not appear.
\<close>

theorem retention_filter:
  assumes "group_emails L msgs = Inr (out, log)"
  shows "(\<exists>gs. group_loop L ([], []) msgs = Inr (gs, log) \<and>
            (\<forall>item. item \<in> set out \<longleftrightarrow>
               item \<in> set gs \<and> (has_list_unsubscribe (snd item) \<or> count (snd item) > 1))) \<and>
         (k \<in> fst ` set out \<longleftrightarrow>
            (\<exists>m \<in> set (members L k msgs). msg_unsub L m) \<or> length (members L k msgs) > 1) \<and>
         (length (members L k msgs) = 1 \<and> (\<forall>m \<in> set (members L k msgs). \<not> msg_unsub L m)
            \<longrightarrow> k \<notin> fst ` set out)"
proof -
  from group_emails_Inr[OF assms] obtain gs where
    l: "group_loop L ([], []) msgs = Inr (gs, log)" and o: "out = filter retained gs"
    by blast
  have a: "\<forall>item. item \<in> set out \<longleftrightarrow>
             item \<in> set gs \<and> (has_list_unsubscribe (snd item) \<or> count (snd item) > 1)"
    by (simp add: o retained_def)
  have b: "k \<in> fst ` set out \<longleftrightarrow>
            (\<exists>m \<in> set (members L k msgs). msg_unsub L m) \<or> length (members L k msgs) > 1"
  proof
    assume "k \<in> fst ` set out"
    then obtain g where g: "(k, g) \<in> set gs" and r: "retained (k, g)"
      by (auto simp: o)
    from r group_unsub[OF l g] group_count[OF l g]
    show "(\<exists>m \<in> set (members L k msgs). msg_unsub L m) \<or> length (members L k msgs) > 1"
      by (simp add: retained_def)
  next
    assume rhs: "(\<exists>m \<in> set (members L k msgs). msg_unsub L m) \<or> length (members L k msgs) > 1"
    then have ne: "members L k msgs \<noteq> []" by auto
    define g where "g = foldl (apply_msg L k) default_group (members L k msgs)"
    from key_of_members[OF l ne] have g: "(k, g) \<in> set gs" by (simp add: g_def)
    from rhs group_unsub[OF l g] group_count[OF l g] have "retained (k, g)"
      by (simp add: retained_def)
    with g show "k \<in> fst ` set out"
      by (force simp: o)
  qed
  from b have c: "length (members L k msgs) = 1 \<and>
      (\<forall>m \<in> set (members L k msgs). \<not> msg_unsub L m) \<longrightarrow> k \<notin> fst ` set out"
    by auto
  from l a b c show ?thesis by blast
qed

theorem retention_filter_witness:
  "length (members sample_lib ''news@x.org'' [plain_a, lone_news]) = 1 \<and>
   \<not> msg_unsub sample_lib lone_news \<and>
   ''news@x.org'' \<notin> fst ` set [(''a@b.com'', group_a)] \<and>
   ''a@b.com'' \<in> fst ` set [(''a@b.com'', group_a)]"
proof -
  have run: "group_emails sample_lib [plain_a, lone_news] = Inr ([(''a@b.com'', group_a)], [])"
    by code_simp
  have m: "members sample_lib ''news@x.org'' [plain_a, lone_news] = [lone_news]"
    by code_simp
  have u: "\<not> msg_unsub sample_lib lone_news"
    by code_simp
  from retention_filter[OF run, of "''news@x.org''"] m u show ?thesis
    by simp
qed

subsection \<open>C7: the sum of the counts\<close>

text \<open>
  C7 as stated does not hold for the mapping that the Grouper returns: a message that is
  the only one of its sender and has no List-Unsubscribe header is counted, not dropped for
  a missing sender, and its group is then removed by the filter.
\<close>

theorem returned_counts_miss_filtered_groups:
  "group_emails sample_lib [lone_news] = Inr ([], []) \<and>
   counted sample_lib [lone_news] = [lone_news] \<and> total_count [] = 0"
  by code_simp

text \<open>
  C7, amended: the sum of the counts over the groups built by the loop, before the filter,
  equals the number of input messages not dropped for want of a sender address; over the
  groups that the Grouper returns the sum is that number less the number of groups that the
  filter removes, each of which holds one message.
\<close>

theorem counts_sum_to_counted_messages:
  assumes "group_emails L msgs = Inr (out, log)"
  shows "\<exists>gs. group_loop L ([], []) msgs = Inr (gs, log) \<and> out = filter retained gs \<and>
           total_count gs = int (length (counted L msgs)) \<and>
           total_count out = int (length (counted L msgs)) - int (length (dropped_groups gs))"
proof -
  from group_emails_Inr[OF assms] obtain gs where
    l: "group_loop L ([], []) msgs = Inr (gs, log)" and o: "out = filter retained gs"
    by blast
  from group_loop_total[OF l] have t: "total_count gs = int (length (counted L msgs))"
    by (simp add: total_count_def counted_def)
  have "count (snd item) = 1" if "item \<in> set gs" "\<not> retained item" for item
  proof -
    obtain k g where i: "item = (k, g)" by (cases item)
    from that i have g: "(k, g) \<in> set gs" by simp
    from group_of_key[OF l g] group_count[OF l g] have "count g \<ge> 1"
      by (cases "members L k msgs") auto
    with that(2) i show ?thesis by (simp add: retained_def)
  qed
  then have "total_count (filter retained gs) = total_count gs - int (length (dropped_groups gs))"
    by (intro total_count_filter) blast
  with l o t show ?thesis by simp
qed

theorem counts_sum_to_counted_messages_witness:
  "total_count [(''a@b.com'', group_a), (''news@x.org'', group_news)] =
     int (length (counted sample_lib [plain_a, lone_news])) \<and>
   total_count [(''a@b.com'', group_a)] =
     int (length (counted sample_lib [plain_a, lone_news])) -
     int (length (dropped_groups [(''a@b.com'', group_a), (''news@x.org'', group_news)]))"
proof -
  have run: "group_emails sample_lib [plain_a, lone_news] = Inr ([(''a@b.com'', group_a)], [])"
    by code_simp
  have l: "group_loop sample_lib ([], []) [plain_a, lone_news] =
           Inr ([(''a@b.com'', group_a), (''news@x.org'', group_news)], [])"
    by code_simp
  from counts_sum_to_counted_messages[OF run] obtain gs where
    g: "group_loop sample_lib ([], []) [plain_a, lone_news] = Inr (gs, [])" and
    t: "total_count gs = int (length (counted sample_lib [plain_a, lone_news]))" and
    o: "total_count [(''a@b.com'', group_a)] =
        int (length (counted sample_lib [plain_a, lone_news])) - int (length (dropped_groups gs))"
    by blast
  from g l have "gs = [(''a@b.com'', group_a), (''news@x.org'', group_news)]"
    by simp
  with t o show ?thesis
    by simp
qed

subsection \<open>C4: records without headers\<close>

lemma process_msg_no_headers:
  assumes "headers_of m = []"
  shows "process_msg L (gs, log) m = Inr (gs, log @ [NoSenderEmail ''Unknown Sender''])"
  using assms
  by (simp add: process_msg_def init_locals_def skip_message_def console_print_def)

lemma group_loop_no_headers:
  assumes "\<forall>m \<in> set msgs. headers_of m = []"
  shows "group_loop L (gs, log) msgs =
         Inr (gs, log @ map (\<lambda>m. NoSenderEmail ''Unknown Sender'') msgs)"
  using assms
  by (induction msgs arbitrary: log) (simp_all add: process_msg_no_headers)

text \<open>
  C4 as stated does not hold: there is no error result. When the payload or its header list
  is absent from every record, the Grouper returns the empty mapping, the value it returns
  for an empty input; only the warnings printed differ.
\<close>

theorem unusable_input_gives_empty_mapping:
  "group_emails sample_lib no_payload_msgs =
     Inr ([], [NoSenderEmail ''Unknown Sender'', NoSenderEmail ''Unknown Sender'']) \<and>
   group_emails sample_lib [] = Inr ([], [])"
  by code_simp

text \<open>
  C4, amended: when every record of the input lacks the payload or the header list (or has
  an empty one), the Grouper raises nothing and returns the empty mapping, as it does when
  no newsletter is found, after one missing-sender warning for each record.
\<close>

theorem no_headers_no_error:
  assumes "\<forall>m \<in> set msgs. headers_of m = []"
  shows "group_emails L msgs = Inr ([], map (\<lambda>m. NoSenderEmail ''Unknown Sender'') msgs)"
  using group_loop_no_headers[OF assms, of L "[]" "[]"]
  by (simp add: group_emails_def)

theorem no_headers_no_error_witness:
  "group_emails sample_lib no_header_msgs =
     Inr ([], [NoSenderEmail ''Unknown Sender'', NoSenderEmail ''Unknown Sender'',
               NoSenderEmail ''Unknown Sender''])"
proof -
  have "\<forall>m \<in> set no_header_msgs. headers_of m = []"
    by (simp add: no_header_msgs_def headers_of_def)
  from no_headers_no_error[OF this, of sample_lib] show ?thesis
    by (simp add: no_header_msgs_def)
qed

subsection \<open>C9: a date that fails to parse\<close>

text \<open>
  When the warning about the date is printed, the step of the loop raises nothing: the
  message is counted in its group and its id appended, the warning is in the output, and
  the latest date, subject and display sender of the group are those it had before.
\<close>

lemma unparsable_date_counted_if_printed:
  assumes "msg_locals L msg = Inr v" and "sender_email v = Some k" and "k \<noteq> []"
    and "date_str v = Some d" and "d \<noteq> []" and "parse_utc L d = Inl e"
    and "console_print L [d, k, parse_error_text L d]
           (date_warning_text d k (parse_error_text L d)) = None"
  shows "\<exists>g'. process_msg L (gs, log) msg = Inr (dict_set k g' gs, log @ [DateParseFailed d k e]) \<and>
           map_of (dict_set k g' gs) k = Some g' \<and>
           count g' = count (dict_get_default gs k) + 1 \<and>
           ids g' = ids (dict_get_default gs k) @ [msg_id msg] \<and>
           latest_date g' = latest_date (dict_get_default gs k) \<and>
           subject g' = subject (dict_get_default gs k) \<and>
           sender_display g' = sender_display (dict_get_default gs k)"
proof -
  define g where "g = dict_get_default gs k"
  define g' where
    "g' = g\<lparr>count := count g + 1, ids := ids g @ [msg_id msg],
              has_list_unsubscribe := has_list_unsubscribe g \<or> msg_has_list_unsubscribe v\<rparr>"
  from assms
  have "process_msg L (gs, log) msg = Inr (dict_set k g' gs, log @ [DateParseFailed d k e])"
    by (simp add: process_msg_def msg_locals_def update_latest_def Let_def g'_def g_def)
  moreover have "map_of (dict_set k g' gs) k = Some g'"
    by (simp add: map_of_dict_set)
  moreover have "count g' = count g + 1 \<and> ids g' = ids g @ [msg_id msg] \<and>
      latest_date g' = latest_date g \<and> subject g' = subject g \<and>
      sender_display g' = sender_display g"
    by (simp add: g'_def)
  ultimately show ?thesis
    unfolding g_def by blast
qed

lemma unparsable_date_print_raises:
  assumes "msg_locals L msg = Inr v" and "sender_email v = Some k" and "k \<noteq> []"
    and "date_str v = Some d" and "d \<noteq> []" and "parse_utc L d = Inl e"
    and "console_print L [d, k, parse_error_text L d]
           (date_warning_text d k (parse_error_text L d)) = Some e'"
  shows "process_msg L st msg = Inl e'"
  using assms
  by (simp add: process_msg_def msg_locals_def update_latest_def Let_def)

lemma unparsable_date_counted_example:
  "process_msg sample_lib (dated_groups, []) bad_date_news =
     Inr ([(''news@x.org'', group_news\<lparr>count := 2, ids := [Some ''m4'', Some ''m5'']\<rparr>)],
          [DateParseFailed ''not a date'' ''news@x.org'' ParserError])"
  by code_simp

text \<open>
  C9 is not what the code does for every date: the warning of line 211 is printed inside
  the handler with the date text interpolated into console markup. For the Date text
  \<^verbatim>\<open>[/x]\<close> the parser fails, the print raises \<^verbatim>\<open>MarkupError\<close>, and the exception leaves
  \<^verbatim>\<open>group_emails\<close>: the message is not counted, no warning is printed, and the run, which
  returns for the other messages alone, is aborted.
\<close>

theorem date_warning_markup_aborts:
  "parse_utc sample_lib ''[/x]'' = Inl ParserError \<and>
   process_msg sample_lib ([], []) markup_date = Inl MarkupError \<and>
   group_emails sample_lib [plain_a, markup_date, plain_a] = Inl MarkupError \<and>
   group_emails sample_lib [plain_a, plain_a] =
     Inr ([(''a@b.com'', group_a\<lparr>count := 2, ids := [Some ''m1'', Some ''m1'']\<rparr>)], [])"
  by code_simp

subsection \<open>The latest-fields of a group\<close>

lemma apply_msg_undated:
  assumes "msg_key L m = Some k" and "msg_date L m = None"
  shows "latest_date (apply_msg L k g m) = latest_date g \<and>
         subject (apply_msg L k g m) = subject g \<and>
         sender_display (apply_msg L k g m) = sender_display g"
  using assms
  by (auto dest!: msg_key_locals
      simp: apply_msg_def add_message_def set_latest_def msg_date_def
      split: option.splits sum.splits if_splits)

lemma apply_msg_dated:
  assumes "msg_key L m = Some k" and "msg_date L m = Some t" and "msg_locals L m = Inr v"
  shows "(if latest_date g = None \<or> (\<exists>c. latest_date g = Some c \<and> c < t)
          then latest_date (apply_msg L k g m) = Some t \<and>
               subject (apply_msg L k g m) = Some (msg_subject v) \<and>
               sender_display (apply_msg L k g m) = Some (sender v)
          else latest_date (apply_msg L k g m) = latest_date g \<and>
               subject (apply_msg L k g m) = subject g \<and>
               sender_display (apply_msg L k g m) = sender_display g)"
  using assms
  by (auto simp: apply_msg_def add_message_def set_latest_def msg_date_def
      split: option.splits sum.splits if_splits)

lemma latest_inv_step:
  assumes inv: "latest_inv L ms g" and key: "msg_key L m = Some k"
  shows "latest_inv L (ms @ [m]) (apply_msg L k g m)"
proof (cases "msg_date L m")
  case None
  from apply_msg_undated[OF key None, of g] inv None show ?thesis
    by (auto simp: latest_inv_def split: option.splits)
next
  case (Some t)
  from msg_key_locals[OF key] obtain v where v: "msg_locals L m = Inr v" by blast
  note d = apply_msg_dated[OF key Some v, of g]
  show ?thesis
  proof (cases "latest_date g")
    case None
    with d inv Some v show ?thesis
      by (auto simp: latest_inv_def)
  next
    case (Some c)
    show ?thesis
    proof (cases "c < t")
      case True
      with d inv \<open>msg_date L m = Some t\<close> v Some show ?thesis
        by (fastforce simp: latest_inv_def)
    next
      case False
      with d inv \<open>msg_date L m = Some t\<close> v Some show ?thesis
        by (fastforce simp: latest_inv_def)
    qed
  qed
qed

lemma latest_inv_fold:
  assumes "\<forall>m \<in> set ms. msg_key L m = Some k"
  shows "latest_inv L ms (foldl (apply_msg L k) default_group ms)"
  using assms
proof (induction ms rule: rev_induct)
  case Nil
  then show ?case by (simp add: latest_inv_def default_group_def)
next
  case (snoc m ms)
  then show ?case by (simp add: latest_inv_step)
qed

subsection \<open>C8: the latest-fields are in sync\<close>

text \<open>
  C8: in every group that the Grouper returns, the latest date, the subject and the display
  sender are all unset, and then no message counted in the group has a date that parses; or
  all three are set and come from one message counted in the group, whose parsed date is
  the latest date of the group and is not exceeded by the parsed date of any message counted
  in the group.
\<close>

theorem latest_fields_in_sync:
  assumes "group_emails L msgs = Inr (out, log)" and "(k, g) \<in> set out"
  shows "(latest_date g = None \<and> subject g = None \<and> sender_display g = None \<and>
          (\<forall>m \<in> set (members L k msgs). msg_date L m = None)) \<or>
         (\<exists>m \<in> set (members L k msgs). \<exists>v t.
            msg_locals L m = Inr v \<and> msg_date L m = Some t \<and>
            latest_date g = Some t \<and> subject g = Some (msg_subject v) \<and>
            sender_display g = Some (sender v) \<and>
            (\<forall>m' \<in> set (members L k msgs). \<forall>t'. msg_date L m' = Some t' \<longrightarrow> t' \<le> t))"
proof -
  from group_emails_Inr[OF assms(1)] obtain gs where
    l: "group_loop L ([], []) msgs = Inr (gs, log)" and o: "out = filter retained gs"
    by blast
  from assms(2) o have "(k, g) \<in> set gs" by simp
  from group_of_key[OF l this]
  have g: "g = foldl (apply_msg L k) default_group (members L k msgs)" by simp
  have "latest_inv L (members L k msgs) g"
    unfolding g using members_key by (rule latest_inv_fold)
  then show ?thesis
    by (cases "latest_date g") (auto simp: latest_inv_def)
qed

theorem latest_fields_in_sync_witness:
  "group_emails sample_lib news_msgs =
     Inr ([(''news@x.org'', news_group)],
          [DateParseFailed ''not a date'' ''news@x.org'' ParserError]) \<and>
   latest_date news_group \<noteq> None \<and>
   members sample_lib ''news@x.org'' news_msgs = news_msgs \<and>
   msg_locals sample_lib later_news = Inr later_locals \<and>
   msg_date sample_lib later_news = latest_date news_group \<and>
   subject news_group = Some (msg_subject later_locals) \<and>
   sender_display news_group = Some (sender later_locals)"
proof -
  have run: "group_emails sample_lib news_msgs =
     Inr ([(''news@x.org'', news_group)],
          [DateParseFailed ''not a date'' ''news@x.org'' ParserError])"
    by code_simp
  have mem: "(''news@x.org'', news_group) \<in> set [(''news@x.org'', news_group)]"
    by simp
  have facts: "latest_date news_group \<noteq> None \<and>
   members sample_lib ''news@x.org'' news_msgs = news_msgs \<and>
   msg_locals sample_lib later_news = Inr later_locals \<and>
   msg_date sample_lib later_news = latest_date news_group \<and>
   subject news_group = Some (msg_subject later_locals) \<and>
   sender_display news_group = Some (sender later_locals)"
    by code_simp
  from latest_fields_in_sync[OF run mem] run facts show ?thesis
    by blast
qed

subsection \<open>C5: ranking\<close>

lemma mset_sorted_reverse: "mset (sorted_reverse key xs) = mset xs"
  by (simp add: sorted_reverse_def)

lemma sorted_reverse_descending:
  "sorted_wrt (\<lambda>a b. key b \<le> key a) (sorted_reverse key xs)"
proof -
  have "sorted (map key (sort_key key (rev xs)))"
    by (rule sorted_sort_key)
  then have "sorted_wrt (\<lambda>a b. key a \<le> key b) (sort_key key (rev xs))"
    by (simp add: sorted_map)
  then show ?thesis
    by (simp add: sorted_reverse_def sorted_wrt_rev)
qed

lemma sorted_reverse_stable:
  "filter (\<lambda>x. key x = c) (sorted_reverse key xs) = filter (\<lambda>x. key x = c) xs"
proof -
  have "filter (\<lambda>x. key x = c) (sorted_reverse key xs) =
        rev (filter (\<lambda>x. key x = c) (sort_key key (rev xs)))"
    by (simp add: sorted_reverse_def rev_filter)
  also have "\<dots> = rev (filter (\<lambda>x. key x = c) (rev xs))"
    by (simp only: sort_key_stable)
  also have "\<dots> = filter (\<lambda>x. key x = c) xs"
    by (simp add: rev_filter)
  finally show ?thesis .
qed

lemma latest_or_min_instant: "latest_or_min g = instant_of g"
  by (simp add: latest_or_min_def instant_of_def datetime_min_utc_def split: option.splits)

lemma count_key_le: "count_key b \<le> count_key a \<longleftrightarrow> count_first a b"
  by (auto simp: count_key_def count_first_def latest_or_min_instant less_eq_prod_def)

lemma date_key_le: "date_key b \<le> date_key a \<longleftrightarrow> date_first a b"
  by (auto simp: date_key_def date_first_def latest_or_min_instant less_eq_prod_def)

text \<open>
  C5: ranking by count returns the items of the mapping, each once, in an order in which an
  item stands before another only if its count is greater, or the counts are equal and its
  latest date is not earlier; ranking by date likewise with the latest date first and the
  count as tie-break. A group without a latest date is compared as the minimal instant,
  below which no instant lies. Items equal on both keys keep the order of the mapping. For
  the groups A, B, C of the example the ranking by count is B, A, C and the ranking by date
  is C, B, A.
\<close>

theorem ranking_order:
  "(\<exists>items. sort_groups L gs ''count'' = Inr (items, []) \<and> mset items = mset gs \<and>
      sorted_wrt count_first items \<and>
      filter (\<lambda>x. count_key x = c) items = filter (\<lambda>x. count_key x = c) gs) \<and>
   (\<exists>items. sort_groups L gs ''date'' = Inr (items, []) \<and> mset items = mset gs \<and>
      sorted_wrt date_first items \<and>
      filter (\<lambda>x. date_key x = d) items = filter (\<lambda>x. date_key x = d) gs) \<and>
   instant_of (g\<lparr>latest_date := None\<rparr>) = datetime_min_utc \<and>
   instant_of (g\<lparr>latest_date := Some t\<rparr>) = t \<and> datetime_min_utc \<le> t \<and>
   sort_groups L [item_A, item_B, item_C] ''count'' = Inr ([item_B, item_A, item_C], []) \<and>
   sort_groups L [item_A, item_B, item_C] ''date'' = Inr ([item_C, item_B, item_A], [])"
proof -
  have sc: "sort_groups L xs ''count'' = Inr (sorted_reverse count_key xs, [])" for xs
    by (simp add: sort_groups_def console_print_def)
  have sd: "sort_groups L xs ''date'' = Inr (sorted_reverse date_key xs, [])" for xs
    by (simp add: sort_groups_def console_print_def)
  have 1: "sorted_wrt count_first (sorted_reverse count_key gs)"
    using sorted_reverse_descending[of count_key gs] by (simp add: count_key_le)
  have 2: "sorted_wrt date_first (sorted_reverse date_key gs)"
    using sorted_reverse_descending[of date_key gs] by (simp add: date_key_le)
  have 3: "\<exists>items. sort_groups L gs ''count'' = Inr (items, []) \<and> mset items = mset gs \<and>
      sorted_wrt count_first items \<and>
      filter (\<lambda>x. count_key x = c) items = filter (\<lambda>x. count_key x = c) gs"
    using 1 by (simp add: sc mset_sorted_reverse sorted_reverse_stable)
  have 4: "\<exists>items. sort_groups L gs ''date'' = Inr (items, []) \<and> mset items = mset gs \<and>
      sorted_wrt date_first items \<and>
      filter (\<lambda>x. date_key x = d) items = filter (\<lambda>x. date_key x = d) gs"
    using 2 by (simp add: sd mset_sorted_reverse sorted_reverse_stable)
  have 5: "instant_of (g\<lparr>latest_date := None\<rparr>) = datetime_min_utc"
    "instant_of (g\<lparr>latest_date := Some t\<rparr>) = t" "datetime_min_utc \<le> t"
    by (simp_all add: instant_of_def datetime_min_utc_def)
  have "sorted_reverse count_key [item_A, item_B, item_C] = [item_B, item_A, item_C]"
    by code_simp
  then have 6: "sort_groups L [item_A, item_B, item_C] ''count'' =
                Inr ([item_B, item_A, item_C], [])"
    by (simp only: sc)
  have "sorted_reverse date_key [item_A, item_B, item_C] = [item_C, item_B, item_A]"
    by code_simp
  then have 7: "sort_groups L [item_A, item_B, item_C] ''date'' =
                Inr ([item_C, item_B, item_A], [])"
    by (simp only: sd)
  from 3 4 5 6 7 show ?thesis by blast
qed

theorem ranking_order_witness:
  "sort_groups sample_lib [item_A, item_B, item_C] ''count'' =
     Inr ([item_B, item_A, item_C], []) \<and>
   sort_groups sample_lib [item_A, item_B, item_C] ''date'' =
     Inr ([item_C, item_B, item_A], []) \<and>
   sorted_wrt count_first [item_B, item_A, item_C] \<and>
   sorted_wrt date_first [item_C, item_B, item_A] \<and>
   mset [item_B, item_A, item_C] = mset [item_A, item_B, item_C]"
proof -
  note t = ranking_order[of sample_lib "[item_A, item_B, item_C]"]
  from t have c: "sort_groups sample_lib [item_A, item_B, item_C] ''count'' =
                  Inr ([item_B, item_A, item_C], [])"
    and d: "sort_groups sample_lib [item_A, item_B, item_C] ''date'' =
            Inr ([item_C, item_B, item_A], [])"
    by blast+
  from t obtain xs where
    "sort_groups sample_lib [item_A, item_B, item_C] ''count'' = Inr (xs, [])"
    "mset xs = mset [item_A, item_B, item_C]" "sorted_wrt count_first xs"
    by blast
  with c have 1: "sorted_wrt count_first [item_B, item_A, item_C]"
    "mset [item_B, item_A, item_C] = mset [item_A, item_B, item_C]"
    by simp_all
  from t obtain ys where
    "sort_groups sample_lib [item_A, item_B, item_C] ''date'' = Inr (ys, [])"
    "sorted_wrt date_first ys"
    by blast
  with d have 2: "sorted_wrt date_first [item_C, item_B, item_A]"
    by simp
  from c d 1 2 show ?thesis by blast
qed

subsection \<open>Encoding and decoding of the query\<close>

lemma hex_digits:
  "\<forall>n \<in> set [0..<16]. hex_val (hex_digit n) = Some n \<and> hex_digit n \<noteq> CHR ''+'' \<and>
     hex_digit n \<noteq> CHR '' '' \<and> hex_digit n \<noteq> CHR '':'' \<and> hex_digit n \<noteq> CHR ''(''
     \<and> hex_digit n \<noteq> CHR '')''"
  by code_simp

lemma hex_digit_props:
  assumes "n < 16"
  shows "hex_val (hex_digit n) = Some n" "hex_digit n \<noteq> CHR ''+''" "hex_digit n \<noteq> CHR '' ''"
    "hex_digit n \<noteq> CHR '':''" "hex_digit n \<noteq> CHR ''(''" "hex_digit n \<noteq> CHR '')''"
proof -
  from assms have "n \<in> set [0..<16]" by simp
  with hex_digits have "hex_val (hex_digit n) = Some n \<and> hex_digit n \<noteq> CHR ''+'' \<and>
     hex_digit n \<noteq> CHR '' '' \<and> hex_digit n \<noteq> CHR '':'' \<and> hex_digit n \<noteq> CHR ''(''
     \<and> hex_digit n \<noteq> CHR '')''"
    by (rule bspec)
  then show "hex_val (hex_digit n) = Some n" "hex_digit n \<noteq> CHR ''+''" "hex_digit n \<noteq> CHR '' ''"
    "hex_digit n \<noteq> CHR '':''" "hex_digit n \<noteq> CHR ''(''" "hex_digit n \<noteq> CHR '')''"
    by simp_all
qed

lemma high_nibble: "(of_char c :: nat) div 16 < 16"
proof -
  have "(of_char c :: nat) < 256" by simp
  then show ?thesis by (simp add: div_less_iff_less_mult)
qed

lemma low_nibble: "(of_char c :: nat) mod 16 < 16"
  by simp

lemma nibbles_char: "char_of (16 * ((of_char c :: nat) div 16) + of_char c mod 16) = c"
  by simp

lemma always_safe_plain:
  assumes "always_safe c"
  shows "c \<noteq> CHR ''%''" "c \<noteq> CHR ''+''" "c \<noteq> CHR '' ''" "c \<noteq> CHR '':''"
    "c \<noteq> CHR ''(''" "c \<noteq> CHR '')''"
  using assms by (auto simp: always_safe_def)

lemma unquote_plain: "c \<noteq> CHR ''%'' \<Longrightarrow> unquote (c # cs) = c # unquote cs"
  by (cases "(c # cs)" rule: unquote.cases) simp_all

lemma unquote_escape:
  assumes "hex_val h = Some a" and "hex_val l = Some b"
  shows "unquote (CHR ''%'' # h # l # cs) = char_of (16 * a + b) # unquote cs"
  using assms by simp

lemma unquote_plus_byte:
  "unquote (map plus_to_space (plus_byte c @ rest)) = c # unquote (map plus_to_space rest)"
proof -
  consider (sp) "c = CHR '' ''" | (safe) "c \<noteq> CHR '' ''" "always_safe c"
    | (esc) "c \<noteq> CHR '' ''" "\<not> always_safe c"
    by blast
  then show ?thesis
  proof cases
    case sp
    then show ?thesis
      by (simp add: plus_byte_def plus_to_space_def unquote_plain)
  next
    case safe
    with always_safe_plain[OF safe(2)] show ?thesis
      by (simp add: plus_byte_def plus_to_space_def unquote_plain)
  next
    case esc
    let ?h = "hex_digit (of_char c div 16)" and ?l = "hex_digit (of_char c mod 16)"
    have h: "hex_val ?h = Some (of_char c div 16)" "?h \<noteq> CHR ''+''"
      using hex_digit_props[OF high_nibble[of c]] by simp_all
    have l: "hex_val ?l = Some (of_char c mod 16)" "?l \<noteq> CHR ''+''"
      using hex_digit_props[OF low_nibble[of c]] by simp_all
    have "map plus_to_space (plus_byte c @ rest) = CHR ''%'' # ?h # ?l # map plus_to_space rest"
      using esc h(2) l(2) by (simp add: plus_byte_def plus_to_space_def)
    then show ?thesis
      using unquote_escape[OF h(1) l(1)] nibbles_char[of c] by simp
  qed
qed

lemma unquote_concat_plus_byte:
  "unquote (map plus_to_space (concat (map plus_byte s))) = s"
proof (induction s)
  case Nil
  then show ?case by simp
next
  case (Cons c s)
  have "unquote (map plus_to_space (concat (map plus_byte (c # s)))) =
        unquote (map plus_to_space (plus_byte c @ concat (map plus_byte s)))"
    by simp
  also have "\<dots> = c # unquote (map plus_to_space (concat (map plus_byte s)))"
    by (rule unquote_plus_byte)
  finally show ?case using Cons.IH by simp
qed

lemma hex_digit_ne_space: "hex_digit (of_char c div 16) \<noteq> CHR '' '' \<and> hex_digit (of_char c mod 16) \<noteq> CHR '' ''"
  using hex_digit_props(3)[OF high_nibble[of c]] hex_digit_props(3)[OF low_nibble[of c]] by simp

lemma quote_plus_concat: "quote_plus s = concat (map plus_byte s)"
proof (cases "CHR '' '' \<in> set s")
  case True
  have "map (\<lambda>c. if c = CHR '' '' then CHR ''+'' else c) (quote_byte '' '' c) = plus_byte c"
    for c
    using hex_digit_ne_space[of c] always_safe_plain(3)[of c]
    by (auto simp: quote_byte_def plus_byte_def)
  then have "map (\<lambda>c. if c = CHR '' '' then CHR ''+'' else c) \<circ> quote_byte '' '' = plus_byte"
    by (intro ext) simp
  then show ?thesis
    using True by (simp add: quote_plus_def quote_def map_concat)
next
  case False
  then have "map (quote_byte []) s = map plus_byte s"
    by (auto simp: quote_byte_def plus_byte_def)
  then have "quote [] s = concat (map plus_byte s)"
    unfolding quote_def by (rule arg_cong)
  with False show ?thesis
    by (simp add: quote_plus_def)
qed

lemma unquote_plus_quote_plus: "unquote_plus (quote_plus s) = s"
  using unquote_concat_plus_byte[of s]
  by (simp add: unquote_plus_def quote_plus_concat plus_to_space_def[abs_def])

lemma quote_plus_append: "quote_plus (xs @ ys) = quote_plus xs @ quote_plus ys"
  by (simp add: quote_plus_concat)

lemma plus_byte_reserved:
  "CHR '' '' \<notin> set (plus_byte c) \<and> CHR '':'' \<notin> set (plus_byte c) \<and>
   CHR ''('' \<notin> set (plus_byte c) \<and> CHR '')'' \<notin> set (plus_byte c)"
  using hex_digit_props(3-6)[OF high_nibble[of c]] hex_digit_props(3-6)[OF low_nibble[of c]]
    always_safe_plain(3-6)[of c]
  by (auto simp: plus_byte_def)

lemma quote_plus_reserved:
  "CHR '' '' \<notin> set (quote_plus s) \<and> CHR '':'' \<notin> set (quote_plus s) \<and>
   CHR ''('' \<notin> set (quote_plus s) \<and> CHR '')'' \<notin> set (quote_plus s)"
  using plus_byte_reserved by (auto simp: quote_plus_concat)

subsection \<open>C2: the filter string and the search URL\<close>

text \<open>
  C2 as stated does not hold: \<^verbatim>\<open>quote_plus\<close> writes a space as \<^verbatim>\<open>+\<close>, not as a percent
  escape, so percent-decoding the fragment of the URL gives a text with \<^verbatim>\<open>+\<close> in the
  place of the space, which is not the filter string.
\<close>

theorem space_is_not_percent_encoded:
  "full_filter_string ''is:unread'' ''foo@bar.com'' = ''is:unread from:(foo@bar.com)'' \<and>
   search_url ''is:unread'' ''foo@bar.com'' =
     ''https://mail.google.com/mail/u/0/#search/is%3Aunread+from%3A%28foo%40bar.com%29'' \<and>
   unquote (quote_plus (full_filter_string ''is:unread'' ''foo@bar.com'')) =
     ''is:unread+from:(foo@bar.com)'' \<and>
   unquote (quote_plus (full_filter_string ''is:unread'' ''foo@bar.com'')) \<noteq>
     full_filter_string ''is:unread'' ''foo@bar.com''"
  by code_simp

text \<open>
  C2, amended: the filter string is the query, a space, and \<^verbatim>\<open>from:(\<close> sender \<^verbatim>\<open>)\<close>; the
  URL is the fixed prefix followed by the \<^verbatim>\<open>quote_plus\<close> encoding of the filter string, in
  which the space is written \<^verbatim>\<open>+\<close> and the colon and the parentheses are percent-encoded,
  so that none of these four characters remains; and decoding the fragment as
  \<^verbatim>\<open>unquote_plus\<close> does (each \<^verbatim>\<open>+\<close> a space, then percent-decoding) gives the filter string
  back exactly.
\<close>

theorem filter_query_round_trip:
  "full_filter_string Q s = Q @ '' '' @ ''from:('' @ s @ '')'' \<and>
   search_url Q s =
     ''https://mail.google.com/mail/u/0/#search/'' @ quote_plus (full_filter_string Q s) \<and>
   quote_plus (full_filter_string Q s) =
     quote_plus Q @ ''+from%3A%28'' @ quote_plus s @ ''%29'' \<and>
   (\<forall>c \<in> set '' :()''. c \<notin> set (quote_plus (full_filter_string Q s))) \<and>
   unquote_plus (quote_plus (full_filter_string Q s)) = full_filter_string Q s"
proof -
  have 1: "full_filter_string Q s = Q @ '' '' @ ''from:('' @ s @ '')''"
    by (simp add: full_filter_string_def generate_filter_query_def)
  have 2: "search_url Q s =
     ''https://mail.google.com/mail/u/0/#search/'' @ quote_plus (full_filter_string Q s)"
    by (simp add: search_url_def)
  have a: "quote_plus '' from:('' = ''+from%3A%28''" and b: "quote_plus '')'' = ''%29''"
    by code_simp+
  have "full_filter_string Q s = Q @ '' from:('' @ s @ '')''"
    by (simp add: 1)
  then have 3: "quote_plus (full_filter_string Q s) =
     quote_plus Q @ ''+from%3A%28'' @ quote_plus s @ ''%29''"
    by (simp only: quote_plus_append a b)
  have 4: "\<forall>c \<in> set '' :()''. c \<notin> set (quote_plus (full_filter_string Q s))"
    using quote_plus_reserved[of "full_filter_string Q s"] by simp
  have 5: "unquote_plus (quote_plus (full_filter_string Q s)) = full_filter_string Q s"
    by (rule unquote_plus_quote_plus)
  from 1 2 3 4 5 show ?thesis by blast
qed

theorem filter_query_round_trip_witness:
  "unquote_plus (quote_plus ''is:unread from:(foo@bar.com)'') = ''is:unread from:(foo@bar.com)'' \<and>
   CHR '' '' \<notin> set (quote_plus ''is:unread from:(foo@bar.com)'') \<and>
   CHR '':'' \<notin> set (quote_plus ''is:unread from:(foo@bar.com)'') \<and>
   CHR ''('' \<notin> set (quote_plus ''is:unread from:(foo@bar.com)'') \<and>
   CHR '')'' \<notin> set (quote_plus ''is:unread from:(foo@bar.com)'')"
proof -
  have f: "full_filter_string ''is:unread'' ''foo@bar.com'' = ''is:unread from:(foo@bar.com)''"
    by (simp add: full_filter_string_def generate_filter_query_def)
  from filter_query_round_trip[of "''is:unread''" "''foo@bar.com''",
      THEN conjunct2, THEN conjunct2, THEN conjunct2]
  show ?thesis
    unfolding f by simp
qed

end
